theory Spec2Isabelle
  imports Main "HOL-Library.Word" "HOL-Library.Sublist" "HOL-Library.Multiset"
begin

section \<open>The job queue of internal/jobqueue/fsjobqueue, embedded\<close>

text \<open>
  The package keeps every job as one JSON document in a directory and two indices in
  memory: a buffered channel of job ids per job type, and a map from a job id to the
  jobs that wait for it. The embedding follows \<^verbatim>\<open>fsjobqueue.go\<close> function by function.
  What the Go code takes from outside itself is a parameter of the model: the fresh id
  of \<^verbatim>\<open>uuid.New\<close>, the clock, the order in which \<^verbatim>\<open>range\<close> visits a map, the choice
  \<^verbatim>\<open>reflect.Select\<close> makes among ready cases, and the failures of the file system.

  One call runs at a time in the model. An operation that has to wait for another
  goroutine (a send on a full channel, a receive with nothing buffered, a \<^verbatim>\<open>Lock\<close> of
  the mutex that a parked call holds) is the outcome \<open>Blocks\<close>: the call does not
  return unless another goroutine acts. \<open>Enqueue\<close>, \<open>Dequeue\<close> and \<open>FinishJob\<close> are
  the methods as they run once they hold the mutex; \<open>Enqueue_mu\<close>, \<open>Dequeue_mu\<close> and
  \<open>FinishJob_mu\<close> are the methods with their \<^verbatim>\<open>q.mu.Lock()\<close> and
  \<^verbatim>\<open>defer q.mu.Unlock()\<close>.
\<close>

subsection \<open>Data\<close>

text \<open>A \<^verbatim>\<open>uuid.UUID\<close> is a \<^verbatim>\<open>[16]byte\<close>: 128 bits, byte 0 the most significant.\<close>

type_synonym uuid = "128 word"

definition uuid_byte :: "uuid \<Rightarrow> nat \<Rightarrow> 8 word" where
  "uuid_byte u b = ucast (drop_bit (8 * (15 - b)) u)"

text \<open>
  A \<^verbatim>\<open>time.Time\<close> is an instant counted from the zero instant, which is the zero value
  of the type and the only one \<^verbatim>\<open>IsZero\<close> accepts.
\<close>

type_synonym time = nat

definition IsZero :: "time \<Rightarrow> bool" where
  "IsZero t = (t = 0)"

type_synonym raw = string

text \<open>The on-disk struct \<^verbatim>\<open>job\<close> (the field \<^verbatim>\<open>Id\<close> is written \<open>Id'\<close>).\<close>

record job =
  Id' :: uuid
  Type :: string
  Args :: raw
  Dependencies :: "uuid list"
  Result :: raw
  QueuedAt :: time
  StartedAt :: time
  FinishedAt :: time

text \<open>
  A key of the record store is a file name. \<open>Canonical id\<close> is the name \<^verbatim>\<open>id.String()\<close>
  gives for an id, which \<^verbatim>\<open>uuid.Parse\<close> reads back. \<open>Noncanonical id s\<close> is a name \<open>s\<close>
  that \<^verbatim>\<open>uuid.Parse\<close> takes for the id although \<^verbatim>\<open>id.String()\<close> is another name
  (upper case, braces, the \<^verbatim>\<open>urn:uuid:\<close> prefix, 32 digits without hyphens).
  \<open>Invalid s\<close> is a file name that \<^verbatim>\<open>uuid.Parse\<close> rejects.
\<close>

datatype key = Canonical uuid | Noncanonical uuid string | Invalid string

text \<open>
  Every \<^verbatim>\<open>return ..., err\<close> of the package, one constructor each. \<open>ErrNotExist\<close> and
  \<open>ErrNotRunning\<close> are the two sentinel errors of package jobqueue; \<open>ErrCanceled\<close> is
  \<^verbatim>\<open>ctx.Err()\<close>; \<open>ErrChannelClosed\<close> is "channel was closed unexpectedly".
\<close>

datatype error =
    ErrListing
  | ErrInvalidJob key
  | ErrReading uuid
  | ErrNotExist
  | ErrNotRunning
  | ErrMarshalArgs
  | ErrCannotWrite
  | ErrWriting uuid
  | ErrUnmarshalArgs uuid
  | ErrMarshalResult
  | ErrUnmarshalResult uuid
  | ErrCanceled
  | ErrChannelClosed

datatype 'a outcome = Returns 'a | Fails error | Blocks

subsection \<open>The record store\<close>

text \<open>
  Modelled from the spec: package jsondb (\<^verbatim>\<open>internal/jsondb\<close>) is not among the sources.
  The spec (4.1) gives it as a key-to-document store: Write replaces the document of a
  key and on failure leaves the previous value intact, Read returns whether the key was
  found, List returns the keys present. The documents are kept in the order in which
  List returns their keys; a key that is written for the first time comes last.
\<close>

type_synonym jsondb = "(key \<times> job) list"

fun uuid_Parse :: "key \<Rightarrow> uuid option" where
  "uuid_Parse (Canonical u) = Some u"
| "uuid_Parse (Noncanonical u s) = Some u"
| "uuid_Parse (Invalid s) = None"

text \<open>
  What one call meets outside the package. The three failure fields say which calls of
  the record store return an error during this call.
\<close>

record env =
  uuid_New :: uuid
  time_Now :: time
  range_seed :: nat
  select_pick :: nat
  List_fails :: bool
  Read_fails :: "key \<Rightarrow> bool"
  Write_fails :: "key \<Rightarrow> bool"

fun db_put :: "key \<Rightarrow> job \<Rightarrow> jsondb \<Rightarrow> jsondb" where
  "db_put k doc [] = [(k, doc)]"
| "db_put k doc (p # ps) = (if fst p = k then (k, doc) # ps else p # db_put k doc ps)"

definition db_Write :: "env \<Rightarrow> jsondb \<Rightarrow> key \<Rightarrow> job \<Rightarrow> jsondb option" where
  "db_Write e d k doc = (if Write_fails e k then None else Some (db_put k doc d))"

definition db_Read :: "env \<Rightarrow> jsondb \<Rightarrow> key \<Rightarrow> (job option) option" where
  "db_Read e d k = (if Read_fails e k then None else Some (map_of d k))"

definition db_List :: "env \<Rightarrow> jsondb \<Rightarrow> key list option" where
  "db_List e d = (if List_fails e then None else Some (map fst d))"

subsection \<open>The queue\<close>

text \<open>
  \<open>pending\<close> holds, for each job type that has a channel, the ids buffered in it, the
  oldest first; a channel has room for 100. No code of the package closes a channel, so
  the buffer is all of a channel's state. \<open>dependants\<close> is the Go map: a missing key
  reads as the empty slice.
\<close>

record fsJobQueue =
  db :: jsondb
  pending :: "string \<rightharpoonup> uuid list"
  dependants :: "uuid \<rightharpoonup> uuid list"

definition chan_cap :: nat where
  "chan_cap = 100"

definition slice_of :: "('k \<rightharpoonup> 'v list) \<Rightarrow> 'k \<Rightarrow> 'v list" where
  "slice_of m k = (case m k of None \<Rightarrow> [] | Some l \<Rightarrow> l)"

definition readJob :: "env \<Rightarrow> fsJobQueue \<Rightarrow> uuid \<Rightarrow> error + job" where
  "readJob e q i =
     (case db_Read e (db q) (Canonical i) of
        None \<Rightarrow> Inl (ErrReading i)
      | Some None \<Rightarrow> Inl ErrNotExist
      | Some (Some j) \<Rightarrow> Inr j)"

fun countFinishedJobs_loop :: "env \<Rightarrow> fsJobQueue \<Rightarrow> uuid list \<Rightarrow> nat \<Rightarrow> error + nat" where
  "countFinishedJobs_loop e q [] n = Inr n"
| "countFinishedJobs_loop e q (i # ids) n =
     (case readJob e q i of
        Inl err \<Rightarrow> Inl err
      | Inr j \<Rightarrow> countFinishedJobs_loop e q ids (if IsZero (FinishedAt j) then n else n + 1))"

definition countFinishedJobs :: "env \<Rightarrow> fsJobQueue \<Rightarrow> uuid list \<Rightarrow> error + nat" where
  "countFinishedJobs e q ids = countFinishedJobs_loop e q ids 0"

definition pendingChannel :: "fsJobQueue \<Rightarrow> string \<Rightarrow> fsJobQueue" where
  "pendingChannel q jobType =
     (case pending q jobType of
        None \<Rightarrow> q\<lparr>pending := (pending q)(jobType \<mapsto> [])\<rparr>
      | Some c \<Rightarrow> q)"

fun pendingChannels :: "fsJobQueue \<Rightarrow> string list \<Rightarrow> fsJobQueue" where
  "pendingChannels q [] = q"
| "pendingChannels q (jt # jts) = pendingChannels (pendingChannel q jt) jts"

text \<open>
  The statement \<^verbatim>\<open>q.pendingChannel(t) <- id\<close>: the channel is made if it is missing, and
  the send goes through when the buffer has room. \<open>None\<close> is the send that waits.
\<close>

definition chan_send :: "fsJobQueue \<Rightarrow> string \<Rightarrow> uuid \<Rightarrow> fsJobQueue option" where
  "chan_send q t i =
     (let c = slice_of (pending q) t in
      if length c < chan_cap then Some (q\<lparr>pending := (pending q)(t \<mapsto> c @ [i])\<rparr>) else None)"

definition publish :: "fsJobQueue \<Rightarrow> string \<Rightarrow> uuid \<Rightarrow> fsJobQueue option" where
  "publish q t i = chan_send (pendingChannel q t) t i"

text \<open>The loop \<^verbatim>\<open>for _, dep := range deps { q.dependants[dep] = append(q.dependants[dep], id) }\<close>.\<close>

fun append_dependants :: "uuid list \<Rightarrow> uuid \<Rightarrow> (uuid \<rightharpoonup> uuid list) \<Rightarrow> (uuid \<rightharpoonup> uuid list)" where
  "append_dependants [] i m = m"
| "append_dependants (dep # deps) i m = append_dependants deps i (m(dep \<mapsto> slice_of m dep @ [i]))"

subsection \<open>uniqueUUIDList\<close>

text \<open>
  The comparison function handed to \<^verbatim>\<open>sort.Slice\<close>: it answers true as soon as some
  byte of the first id is below the same byte of the second.
\<close>

definition uuid_less :: "uuid \<Rightarrow> uuid \<Rightarrow> bool" where
  "uuid_less x y = list_ex (\<lambda>b. uuid_byte x b < uuid_byte y b) [0..<16]"

text \<open>
  \<^verbatim>\<open>sort.Slice\<close> belongs to Go's library. On a slice of up to six elements it is, in
  every release, the insertion sort below (from seven elements on, releases differ in
  what runs first); the model uses the insertion sort at every length.
  \<open>sink\<close> is the inner loop \<^verbatim>\<open>for j := i; j > a && less(j, j-1); j-- { swap(j, j-1) }\<close>
  on the sorted prefix held back to front.
\<close>

fun sink :: "('a \<Rightarrow> 'a \<Rightarrow> bool) \<Rightarrow> 'a \<Rightarrow> 'a list \<Rightarrow> 'a list" where
  "sink lt x [] = [x]"
| "sink lt x (y # ys) = (if lt x y then y # sink lt x ys else x # y # ys)"

definition sort_Slice :: "('a \<Rightarrow> 'a \<Rightarrow> bool) \<Rightarrow> 'a list \<Rightarrow> 'a list" where
  "sort_Slice lt l = rev (foldl (\<lambda>prefix x. sink lt x prefix) [] l)"

text \<open>
  \<^verbatim>\<open>for id := range s\<close> over a Go map visits the keys in an order the language leaves
  open and the runtime varies from one loop to the next. \<open>range_order seed\<close> is one
  order for each seed: the seed picks the first key, the rest of the seed the next.
\<close>

function range_order :: "nat \<Rightarrow> 'a list \<Rightarrow> 'a list" where
  "range_order seed [] = []"
| "range_order seed (k # ks) =
     (let n = length (k # ks); i = seed mod n
      in (k # ks) ! i # range_order (seed div n) (take i (k # ks) @ drop (Suc i) (k # ks)))"
  by pat_completeness auto
termination
  by (relation "measure (\<lambda>(seed, ks). length ks)") auto

definition uniqueUUIDList :: "nat \<Rightarrow> uuid list \<Rightarrow> uuid list" where
  "uniqueUUIDList seed ids = sort_Slice uuid_less (range_order seed (remdups ids))"

subsection \<open>New\<close>

text \<open>
  The loop of \<^verbatim>\<open>New\<close> over the listed keys. The test before \<^verbatim>\<open>continue\<close> is the
  source's: \<^verbatim>\<open>if j.StartedAt.IsZero() { continue }\<close>.
\<close>

fun New_loop :: "env \<Rightarrow> key list \<Rightarrow> fsJobQueue \<Rightarrow> fsJobQueue outcome" where
  "New_loop e [] q = Returns q"
| "New_loop e (k # ks) q =
     (case uuid_Parse k of
        None \<Rightarrow> Fails (ErrInvalidJob k)
      | Some u \<Rightarrow>
          (case readJob e q u of
             Inl err \<Rightarrow> Fails err
           | Inr j \<Rightarrow>
               if IsZero (StartedAt j) then New_loop e ks q
               else
                 (case countFinishedJobs e q (Dependencies j) of
                    Inl err \<Rightarrow> Fails err
                  | Inr n \<Rightarrow>
                      if n = length (Dependencies j) then
                        (case publish q (Type j) (Id' j) of
                           None \<Rightarrow> Blocks
                         | Some q' \<Rightarrow> New_loop e ks q')
                      else
                        New_loop e ks
                          (q\<lparr>dependants :=
                               append_dependants (Dependencies j) (Id' j) (dependants q)\<rparr>))))"

definition New :: "env \<Rightarrow> jsondb \<Rightarrow> fsJobQueue outcome" where
  "New e dir =
     (let q = \<lparr>db = dir, pending = Map.empty, dependants = Map.empty\<rparr> in
      case db_List e dir of
        None \<Rightarrow> Fails ErrListing
      | Some ids \<Rightarrow> New_loop e ids q)"

subsection \<open>Enqueue\<close>

text \<open>
  \<open>args\<close> is what \<^verbatim>\<open>json.Marshal(args)\<close> gives: the bytes, or \<open>None\<close> for its error.
  The second component of the result is the queue as the call leaves it. The definition
  is the method from its third line on, with the mutex held; \<open>Enqueue_mu\<close> below adds
  the first two lines.
\<close>

definition Enqueue ::
  "env \<Rightarrow> fsJobQueue \<Rightarrow> string \<Rightarrow> raw option \<Rightarrow> uuid list \<Rightarrow> uuid outcome \<times> fsJobQueue" where
  "Enqueue e q jobType args dependencies =
     (let j = \<lparr>Id' = uuid_New e, Type = jobType, Args = [],
                Dependencies = uniqueUUIDList (range_seed e) dependencies, Result = [],
                QueuedAt = time_Now e, StartedAt = 0, FinishedAt = 0\<rparr> in
      case args of
        None \<Rightarrow> (Fails ErrMarshalArgs, q)
      | Some a \<Rightarrow>
          (let j = j\<lparr>Args := a\<rparr> in
           case countFinishedJobs e q (Dependencies j) of
             Inl err \<Rightarrow> (Fails err, q)
           | Inr finished \<Rightarrow>
               (case db_Write e (db q) (Canonical (Id' j)) j of
                  None \<Rightarrow> (Fails ErrCannotWrite, q)
                | Some d \<Rightarrow>
                    (let q1 = q\<lparr>db := d\<rparr> in
                     if finished = length (Dependencies j) then
                       (case publish q1 (Type j) (Id' j) of
                          None \<Rightarrow> (Blocks, pendingChannel q1 (Type j))
                        | Some q2 \<Rightarrow> (Returns (Id' j), q2))
                     else
                       (Returns (Id' j),
                        q1\<lparr>dependants :=
                             append_dependants (Dependencies j) (Id' j) (dependants q1)\<rparr>)))))"

subsection \<open>Dequeue\<close>

text \<open>
  The caller's context, by the moment it is cancelled: never, before the call, between the
  entry check and the select, or while the select waits.
\<close>

datatype ctx = Background | CanceledBeforeCall | CanceledBeforeSelect | CanceledWhileWaiting

definition ctx_Err :: "ctx \<Rightarrow> bool" where
  "ctx_Err c = (c = CanceledBeforeCall)"

definition ctx_Done :: "ctx \<Rightarrow> bool" where
  "ctx_Done c = (c = CanceledBeforeCall \<or> c = CanceledBeforeSelect)"

text \<open>
  The cases of the select that can proceed at once: case 0 is \<^verbatim>\<open>ctx.Done()\<close>, case
  \<open>i + 1\<close> is the channel \<open>i\<close> of the list.
\<close>

definition ready_cases :: "ctx \<Rightarrow> uuid list list \<Rightarrow> nat list" where
  "ready_cases c bufs =
     (if ctx_Done c then [0] else []) @
     map Suc (filter (\<lambda>i. bufs ! i \<noteq> []) [0..<length bufs])"

text \<open>
  \<^verbatim>\<open>reflect.Select\<close> takes one of the ready cases (\<open>select_pick\<close> says which); with none
  ready it waits, and only a cancellation that comes later ends the wait. The channels
  are named by their job types; the receive takes the oldest id out of the buffer. A
  receive that proceeds on an empty buffer is the receive on a closed channel
  (\<^verbatim>\<open>recvOK\<close> false); no queue of the model has a ready case with an empty buffer
  (lemma \<open>selectUUIDChannel_Fails\<close>).
\<close>

definition selectUUIDChannel ::
  "env \<Rightarrow> ctx \<Rightarrow> fsJobQueue \<Rightarrow> string list \<Rightarrow> uuid outcome \<times> fsJobQueue" where
  "selectUUIDChannel e c q chans =
     (let ready = ready_cases c (map (slice_of (pending q)) chans) in
      if ready = [] then
        (if c = CanceledWhileWaiting then (Fails ErrCanceled, q) else (Blocks, q))
      else
        (let chosen = ready ! (select_pick e mod length ready) in
         if chosen = 0 then (Fails ErrCanceled, q)
         else
           (let t = chans ! (chosen - 1) in
            case slice_of (pending q) t of
              [] \<Rightarrow> (Fails ErrChannelClosed, q)
            | v # rest \<Rightarrow> (Returns v, q\<lparr>pending := (pending q)(t \<mapsto> rest)\<rparr>))))"

text \<open>
  \<open>accepts\<close> says whether \<^verbatim>\<open>json.Unmarshal(j.Args, args)\<close> succeeds on the caller's
  \<^verbatim>\<open>args\<close>. The definition is the method from its third line on, entered with the
  mutex held; the \<^verbatim>\<open>Unlock\<close> and \<^verbatim>\<open>Lock\<close> around the select are in \<open>Dequeue_mu\<close>
  below.
\<close>

definition Dequeue ::
  "env \<Rightarrow> fsJobQueue \<Rightarrow> ctx \<Rightarrow> string list \<Rightarrow> (raw \<Rightarrow> bool) \<Rightarrow> uuid outcome \<times> fsJobQueue" where
  "Dequeue e q c jobTypes accepts =
     (if ctx_Err c then (Fails ErrCanceled, q)
      else
        (case selectUUIDChannel e c (pendingChannels q jobTypes) jobTypes of
           (Fails err, q1) \<Rightarrow> (Fails err, q1)
         | (Blocks, q1) \<Rightarrow> (Blocks, q1)
         | (Returns i, q1) \<Rightarrow>
             (case readJob e q1 i of
                Inl err \<Rightarrow> (Fails err, q1)
              | Inr j \<Rightarrow>
                  if accepts (Args j) then
                    (let j1 = j\<lparr>StartedAt := time_Now e\<rparr> in
                     case db_Write e (db q1) (Canonical i) j1 of
                       None \<Rightarrow> (Fails (ErrWriting i), q1)
                     | Some d \<Rightarrow> (Returns (Id' j1), q1\<lparr>db := d\<rparr>))
                  else (Fails (ErrUnmarshalArgs (Id' j)), q1))))"

subsection \<open>FinishJob and JobStatus\<close>

text \<open>The loop of \<^verbatim>\<open>FinishJob\<close> over \<^verbatim>\<open>q.dependants[id]\<close>.\<close>

fun FinishJob_loop :: "env \<Rightarrow> uuid list \<Rightarrow> fsJobQueue \<Rightarrow> unit outcome \<times> fsJobQueue" where
  "FinishJob_loop e [] q = (Returns (), q)"
| "FinishJob_loop e (depid # depids) q =
     (case readJob e q depid of
        Inl err \<Rightarrow> (Fails err, q)
      | Inr dep \<Rightarrow>
          (case countFinishedJobs e q (Dependencies dep) of
             Inl err \<Rightarrow> (Fails err, q)
           | Inr n \<Rightarrow>
               if n = length (Dependencies dep) then
                 (case publish q (Type dep) (Id' dep) of
                    None \<Rightarrow> (Blocks, pendingChannel q (Type dep))
                  | Some q' \<Rightarrow> FinishJob_loop e depids q')
               else FinishJob_loop e depids q))"

text \<open>
  \<open>result\<close> is what \<^verbatim>\<open>json.Marshal(result)\<close> gives. The definition is the method
  from its third line on, with the mutex held; \<open>FinishJob_mu\<close> below adds the first two
  lines.
\<close>

definition FinishJob ::
  "env \<Rightarrow> fsJobQueue \<Rightarrow> uuid \<Rightarrow> raw option \<Rightarrow> unit outcome \<times> fsJobQueue" where
  "FinishJob e q i result =
     (case readJob e q i of
        Inl err \<Rightarrow> (Fails err, q)
      | Inr j \<Rightarrow>
          if IsZero (StartedAt j) \<or> \<not> IsZero (FinishedAt j) then (Fails ErrNotRunning, q)
          else
            (let j1 = j\<lparr>FinishedAt := time_Now e\<rparr> in
             case result of
               None \<Rightarrow> (Fails ErrMarshalResult, q)
             | Some r \<Rightarrow>
                 (let j2 = j1\<lparr>Result := r\<rparr> in
                  case db_Write e (db q) (Canonical i) j2 of
                    None \<Rightarrow> (Fails (ErrWriting i), q)
                  | Some d \<Rightarrow>
                      (let q1 = q\<lparr>db := d\<rparr> in
                       case FinishJob_loop e (slice_of (dependants q1) i) q1 of
                         (Returns u, q2) \<Rightarrow>
                           (Returns (), q2\<lparr>dependants := (dependants q2)(i := None)\<rparr>)
                       | (Fails err, q2) \<Rightarrow> (Fails err, q2)
                       | (Blocks, q2) \<Rightarrow> (Blocks, q2)))))"

text \<open>
  \<open>accepts\<close> says whether \<^verbatim>\<open>json.Unmarshal(j.Result, result)\<close> succeeds on the caller's
  \<^verbatim>\<open>result\<close>. The call reads the store and changes nothing.
\<close>

definition JobStatus ::
  "env \<Rightarrow> fsJobQueue \<Rightarrow> uuid \<Rightarrow> (raw \<Rightarrow> bool) \<Rightarrow> (time \<times> time \<times> time) outcome" where
  "JobStatus e q i accepts =
     (case readJob e q i of
        Inl err \<Rightarrow> Fails err
      | Inr j \<Rightarrow>
          if IsZero (FinishedAt j) then Returns (QueuedAt j, StartedAt j, FinishedAt j)
          else if accepts (Result j) then Returns (QueuedAt j, StartedAt j, FinishedAt j)
          else Fails (ErrUnmarshalResult i))"

subsection \<open>What the two loops publish\<close>





subsection \<open>The mutex\<close>

text \<open>
  The struct \<^verbatim>\<open>fsJobQueue\<close> is the mutex \<^verbatim>\<open>mu\<close> together with the three fields it
  protects. \<open>mu\<close> is true while a call holds the mutex; between the calls of a sequence
  that is the case only when an earlier call is parked with it.
  \<^verbatim>\<open>Enqueue\<close> and \<^verbatim>\<open>FinishJob\<close> begin with \<^verbatim>\<open>q.mu.Lock()\<close> and
  \<^verbatim>\<open>defer q.mu.Unlock()\<close>: they wait when the mutex is held, and when they park on a
  send they keep it. \<^verbatim>\<open>Dequeue\<close> begins in the same way, but unlocks before its select
  and locks again after it, so a Dequeue that waits for an id leaves the mutex free.
  \<^verbatim>\<open>JobStatus\<close> and \<^verbatim>\<open>New\<close> do not touch the mutex.
\<close>

record fsJobQueue_mu =
  mu :: bool
  guarded :: fsJobQueue

definition Enqueue_mu ::
  "env \<Rightarrow> fsJobQueue_mu \<Rightarrow> string \<Rightarrow> raw option \<Rightarrow> uuid list \<Rightarrow> uuid outcome \<times> fsJobQueue_mu" where
  "Enqueue_mu e s jobType args dependencies =
     (if mu s then (Blocks, s)
      else
        (case Enqueue e (guarded s) jobType args dependencies of
           (Blocks, q) \<Rightarrow> (Blocks, \<lparr>mu = True, guarded = q\<rparr>)
         | (Returns i, q) \<Rightarrow> (Returns i, \<lparr>mu = False, guarded = q\<rparr>)
         | (Fails err, q) \<Rightarrow> (Fails err, \<lparr>mu = False, guarded = q\<rparr>)))"

definition Dequeue_mu ::
  "env \<Rightarrow> fsJobQueue_mu \<Rightarrow> ctx \<Rightarrow> string list \<Rightarrow> (raw \<Rightarrow> bool) \<Rightarrow> uuid outcome \<times> fsJobQueue_mu" where
  "Dequeue_mu e s c jobTypes accepts =
     (if mu s then (Blocks, s)
      else
        (case Dequeue e (guarded s) c jobTypes accepts of
           (r, q) \<Rightarrow> (r, \<lparr>mu = False, guarded = q\<rparr>)))"

definition FinishJob_mu ::
  "env \<Rightarrow> fsJobQueue_mu \<Rightarrow> uuid \<Rightarrow> raw option \<Rightarrow> unit outcome \<times> fsJobQueue_mu" where
  "FinishJob_mu e s i result =
     (if mu s then (Blocks, s)
      else
        (case FinishJob e (guarded s) i result of
           (Blocks, q) \<Rightarrow> (Blocks, \<lparr>mu = True, guarded = q\<rparr>)
         | (Returns u, q) \<Rightarrow> (Returns u, \<lparr>mu = False, guarded = q\<rparr>)
         | (Fails err, q) \<Rightarrow> (Fails err, \<lparr>mu = False, guarded = q\<rparr>)))"

section \<open>Sequences of calls\<close>

text \<open>
  A call of one of the three methods that change the queue, with everything the call is
  given, and the queue after a sequence of calls made one after the other. A call that
  waits stays where it is and the sequence goes on: after a Dequeue that waits for an
  id the mutex is free; after an Enqueue or a \<open>FinishJob\<close> that is parked on a send the
  mutex is held, and every later call waits for it. A Dequeue that waits and is served
  later stands in the sequence where it receives.
\<close>

datatype call =
    Enq env string "raw option" "uuid list"
  | Deq env ctx "string list" "raw \<Rightarrow> bool"
  | Fin env uuid "raw option"

fun step :: "call \<Rightarrow> fsJobQueue_mu \<Rightarrow> uuid outcome \<times> fsJobQueue_mu" where
  "step (Enq e t a ds) s = Enqueue_mu e s t a ds"
| "step (Deq e c ts acc) s = Dequeue_mu e s c ts acc"
| "step (Fin e i r) s =
     (case FinishJob_mu e s i r of
        (Returns u, s') \<Rightarrow> (Returns i, s')
      | (Fails err, s') \<Rightarrow> (Fails err, s')
      | (Blocks, s') \<Rightarrow> (Blocks, s'))"










text \<open>The outcomes of the calls of a sequence, in order.\<close>

fun results :: "call list \<Rightarrow> fsJobQueue_mu \<Rightarrow> uuid outcome list" where
  "results [] s = []"
| "results (c # cs) s = fst (step c s) # results cs (snd (step c s))"




section \<open>Concrete inputs\<close>

text \<open>
  An environment in which the file system never fails, with the fresh id and the clock
  given; the map order and the select take their first choice.
\<close>

definition calm :: "uuid \<Rightarrow> time \<Rightarrow> env" where
  "calm i t =
     \<lparr>uuid_New = i, time_Now = t, range_seed = 0, select_pick = 0, List_fails = False,
      Read_fails = (\<lambda>k. False), Write_fails = (\<lambda>k. False)\<rparr>"

text \<open>The queue over an empty directory.\<close>

definition fresh :: fsJobQueue where
  "fresh = \<lparr>db = [], pending = Map.empty, dependants = Map.empty\<rparr>"

text \<open>A queue with its mutex free.\<close>

definition unlocked :: "fsJobQueue \<Rightarrow> fsJobQueue_mu" where
  "unlocked q = \<lparr>mu = False, guarded = q\<rparr>"

text \<open>A job of the given id, type and dependencies, queued at 5 and never started.\<close>

definition queued_job :: "uuid \<Rightarrow> string \<Rightarrow> uuid list \<Rightarrow> job" where
  "queued_job i t deps =
     \<lparr>Id' = i, Type = t, Args = ''{}'', Dependencies = deps, Result = [],
      QueuedAt = 5, StartedAt = 0, FinishedAt = 0\<rparr>"

text \<open>A queue that holds the two jobs 1 and 256, both pending.\<close>

definition two_jobs :: fsJobQueue where
  "two_jobs =
     \<lparr>db = [(Canonical 1, queued_job 1 ''build'' []),
            (Canonical 256, queued_job 256 ''build'' [])],
      pending = [''build'' \<mapsto> [1, 256]], dependants = Map.empty\<rparr>"

text \<open>
  A queue with job 1 pending, the same queue after job 1 was dequeued at time 7, and an
  environment changed so that every Write fails.
\<close>

definition one_pending :: fsJobQueue where
  "one_pending =
     \<lparr>db = [(Canonical 1, queued_job 1 ''build'' [])],
      pending = [''build'' \<mapsto> [1]], dependants = Map.empty\<rparr>"

definition one_running :: fsJobQueue where
  "one_running =
     \<lparr>db = [(Canonical 1, (queued_job 1 ''build'' [])\<lparr>StartedAt := 7\<rparr>)],
      pending = [''build'' \<mapsto> []], dependants = Map.empty\<rparr>"

definition disk_full :: "env \<Rightarrow> env" where
  "disk_full e = e\<lparr>Write_fails := (\<lambda>k. True)\<rparr>"









text \<open>
  A queue in which job 1 (\<open>build\<close>) is running and job 2 (\<open>ship\<close>) waits for it.
\<close>

definition one_waiting :: fsJobQueue where
  "one_waiting =
     \<lparr>db = [(Canonical 1, (queued_job 1 ''build'' [])\<lparr>StartedAt := 7\<rparr>),
            (Canonical 2, queued_job 2 ''ship'' [1])],
      pending = [''build'' \<mapsto> []], dependants = [1 \<mapsto> [2]]\<rparr>"



text \<open>
  The chain of the spec's first scenario: job 2 depends on job 1; a Dequeue for \<open>ship\<close>
  is cancelled while it waits, before job 1 is finished.
\<close>

definition chain_calls :: "call list" where
  "chain_calls =
     [Enq (calm 1 5) ''build'' (Some ''{}'') [],
      Enq (calm 2 6) ''ship'' (Some ''{}'') [1],
      Deq (calm 0 7) Background [''build''] (\<lambda>a. True),
      Deq (calm 0 8) CanceledWhileWaiting [''ship''] (\<lambda>a. True),
      Fin (calm 0 9) 1 (Some ''{ok:true}''),
      Deq (calm 0 10) Background [''ship''] (\<lambda>a. True)]"

section \<open>Evaluation of the model\<close>

lemmas mu_defs = Enqueue_mu_def Dequeue_mu_def FinishJob_mu_def

lemmas queue_defs =
  New_def Enqueue_def Dequeue_def FinishJob_def JobStatus_def selectUUIDChannel_def
  ready_cases_def ctx_Err_def ctx_Done_def readJob_def countFinishedJobs_def publish_def
  pendingChannel_def chan_send_def chan_cap_def slice_of_def db_List_def db_Read_def
  db_Write_def IsZero_def Let_def

lemmas input_defs =
  calm_def fresh_def queued_job_def two_jobs_def one_pending_def one_running_def disk_full_def
  one_waiting_def unlocked_def

lemma uuid_less_256_1: "uuid_less 256 1"
  by code_simp

lemma uuid_less_1_256: "uuid_less 1 256"
  by code_simp

lemma uniqueUUIDList_Nil: "uniqueUUIDList seed [] = []"
  by (simp add: uniqueUUIDList_def sort_Slice_def)

section \<open>Recovery\<close>

text \<open>
  C1. The claim: recovery re-queues the jobs that were never dispatched and skips the
  started ones, so that after \<open>New\<close> over a directory that holds a never-started job A
  with no unfinished dependency, a Dequeue for A's type returns A.
  The code does the opposite. Here the directory holds the single job 1 of type
  \<open>build\<close>, never started and without dependencies: \<open>New\<close> returns a queue with no
  channel at all, and a Dequeue for \<open>build\<close> on it waits, with nothing to receive.
\<close>

theorem C1_New_drops_never_started_job:
  "New (calm 0 9) [(Canonical 1, queued_job 1 ''build'' [])]
     = Returns \<lparr>db = [(Canonical 1, queued_job 1 ''build'' [])],
                 pending = Map.empty, dependants = Map.empty\<rparr>
   \<and> fst (Dequeue (calm 0 10)
            \<lparr>db = [(Canonical 1, queued_job 1 ''build'' [])],
             pending = Map.empty, dependants = Map.empty\<rparr>
            Background [''build''] (\<lambda>a. True)) = Blocks"
  by (simp add: queue_defs input_defs)

text \<open>
  C2. The claim: over every sequence of operations, restarts included, a job id is
  returned by at most one successful Dequeue.
  On the code, a restart hands a dispatched job out again: job 1 is enqueued on the
  fresh queue and dequeued (which stamps \<open>StartedAt = 7\<close>); \<open>New\<close> over the directory
  as that Dequeue left it publishes job 1 again, and the next Dequeue returns it a
  second time.
\<close>

theorem C2_job_dequeued_again_after_restart:
  "New (calm 0 1) [] = Returns fresh
   \<and> Enqueue (calm 1 5) fresh ''build'' (Some ''{}'') []
       = (Returns 1,
          \<lparr>db = [(Canonical 1, queued_job 1 ''build'' [])],
           pending = [''build'' \<mapsto> [1]], dependants = Map.empty\<rparr>)
   \<and> Dequeue (calm 0 7)
         \<lparr>db = [(Canonical 1, queued_job 1 ''build'' [])],
          pending = [''build'' \<mapsto> [1]], dependants = Map.empty\<rparr>
         Background [''build''] (\<lambda>a. True)
       = (Returns 1,
          \<lparr>db = [(Canonical 1, (queued_job 1 ''build'' [])\<lparr>StartedAt := 7\<rparr>)],
           pending = [''build'' \<mapsto> []], dependants = Map.empty\<rparr>)
   \<and> New (calm 0 8) [(Canonical 1, (queued_job 1 ''build'' [])\<lparr>StartedAt := 7\<rparr>)]
       = Returns
          \<lparr>db = [(Canonical 1, (queued_job 1 ''build'' [])\<lparr>StartedAt := 7\<rparr>)],
           pending = [''build'' \<mapsto> [1]], dependants = Map.empty\<rparr>
   \<and> fst (Dequeue (calm 0 9)
         \<lparr>db = [(Canonical 1, (queued_job 1 ''build'' [])\<lparr>StartedAt := 7\<rparr>)],
          pending = [''build'' \<mapsto> [1]], dependants = Map.empty\<rparr>
         Background [''build''] (\<lambda>a. True)) = Returns 1"
  by (simp add: queue_defs input_defs uniqueUUIDList_Nil)

section \<open>The dependency list that Enqueue stores\<close>

lemma mset_remove_nth:
  "i < length xs \<Longrightarrow> add_mset (xs ! i) (mset (take i xs @ drop (Suc i) xs)) = mset xs"
proof -
  assume "i < length xs"
  then have "mset xs = mset (take i xs @ xs ! i # drop (Suc i) xs)"
    by (simp add: id_take_nth_drop [symmetric])
  then show ?thesis by simp
qed

lemma mset_range_order: "mset (range_order seed ks) = mset ks"
proof (induction seed ks rule: range_order.induct)
  case (1 seed)
  show ?case by simp
next
  case (2 seed k ks)
  let ?xs = "k # ks"
  let ?i = "seed mod length ?xs"
  have i: "?i < length ?xs" by simp
  have "mset (range_order seed ?xs)
      = add_mset (?xs ! ?i)
          (mset (range_order (seed div length ?xs) (take ?i ?xs @ drop (Suc ?i) ?xs)))"
    by (simp add: Let_def)
  also have "\<dots> = add_mset (?xs ! ?i) (mset (take ?i ?xs @ drop (Suc ?i) ?xs))"
    using "2.IH" [OF refl refl] by simp
  also have "\<dots> = mset ?xs"
    using mset_remove_nth [OF i] .
  finally show ?case .
qed

lemma mset_sink: "mset (sink lt x ys) = add_mset x (mset ys)"
  by (induction ys) auto

lemma mset_foldl_sink:
  "mset (foldl (\<lambda>prefix x. sink lt x prefix) acc l) = mset acc + mset l"
  by (induction l arbitrary: acc) (auto simp: mset_sink)

lemma mset_sort_Slice: "mset (sort_Slice lt l) = mset l"
  by (simp add: sort_Slice_def mset_foldl_sink)

lemma mset_uniqueUUIDList: "mset (uniqueUUIDList seed ids) = mset (remdups ids)"
  by (simp add: uniqueUUIDList_def mset_sort_Slice mset_range_order)

lemma set_uniqueUUIDList: "set (uniqueUUIDList seed ids) = set ids"
  using mset_uniqueUUIDList [of seed ids] by (metis set_mset_mset set_remdups)

lemma distinct_uniqueUUIDList: "distinct (uniqueUUIDList seed ids)"
  using mset_uniqueUUIDList [of seed ids]
  by (metis distinct_remdups mset_eq_imp_distinct_iff)

lemma uniqueUUIDList_single:
  assumes "set ids = {a}"
  shows "uniqueUUIDList seed ids = [a]"
proof -
  have "distinct (remdups ids)" "set (remdups ids) = {a}"
    using assms by simp_all
  then have "remdups ids = [a]"
    by (cases "remdups ids") (auto simp: subset_singleton_iff)
  then show ?thesis
    using mset_uniqueUUIDList [of seed ids] by simp
qed

lemma uniqueUUIDList_256_1_seed0: "uniqueUUIDList 0 [256, 1] = [1, 256]"
  by code_simp

lemma uniqueUUIDList_256_1_seed1: "uniqueUUIDList (Suc 0) [256, 1] = [256, 1]"
  by code_simp

text \<open>
  C3. The claim: two Enqueue calls whose dependency lists are equal as sets persist the
  same list, the same ids in the same order.
  The ids 256 (bytes \<open>..., 01, 00\<close>) and 1 (bytes \<open>..., 00, 01\<close>) each have a byte
  below the other's, so the comparison function of \<open>uniqueUUIDList\<close> puts each before
  the other, and the insertion sort returns the reverse of the order in which the map
  loop delivered them. The same call \<open>Enqueue ... [256, 1]\<close> on the same queue stores
  \<open>[1, 256]\<close> when the map loop visits 256 first (seed 0) and \<open>[256, 1]\<close> when it
  visits 1 first (seed 1).
\<close>

theorem C3_stored_dependency_order_varies:
  "Enqueue (calm 3 6) two_jobs ''ship'' (Some ''{}'') [256, 1]
     = (Returns 3,
        \<lparr>db = [(Canonical 1, queued_job 1 ''build'' []),
               (Canonical 256, queued_job 256 ''build'' []),
               (Canonical 3, (queued_job 3 ''ship'' [1, 256])\<lparr>QueuedAt := 6\<rparr>)],
         pending = [''build'' \<mapsto> [1, 256]],
         dependants = [1 \<mapsto> [3], 256 \<mapsto> [3]]\<rparr>)
   \<and> Enqueue ((calm 3 6)\<lparr>range_seed := 1\<rparr>) two_jobs ''ship'' (Some ''{}'') [256, 1]
     = (Returns 3,
        \<lparr>db = [(Canonical 1, queued_job 1 ''build'' []),
               (Canonical 256, queued_job 256 ''build'' []),
               (Canonical 3, (queued_job 3 ''ship'' [256, 1])\<lparr>QueuedAt := 6\<rparr>)],
         pending = [''build'' \<mapsto> [1, 256]],
         dependants = [1 \<mapsto> [3], 256 \<mapsto> [3]]\<rparr>)"
  by (simp add: queue_defs input_defs uniqueUUIDList_256_1_seed0 uniqueUUIDList_256_1_seed1
      fun_upd_twist)

section \<open>Reads, failures and what they leave behind\<close>


lemma readJob_Inl: "readJob e q i = Inl err \<Longrightarrow> err = ErrNotExist \<or> err = ErrReading i"
  by (auto simp: readJob_def db_Read_def split: option.splits if_splits)

lemma readJob_Inr_iff:
  "readJob e q i = Inr j \<longleftrightarrow> \<not> Read_fails e (Canonical i) \<and> map_of (db q) (Canonical i) = Some j"
  by (auto simp: readJob_def db_Read_def split: option.splits)

lemma readJob_missing:
  "\<not> Read_fails e (Canonical i) \<Longrightarrow> map_of (db q) (Canonical i) = None
   \<Longrightarrow> readJob e q i = Inl ErrNotExist"
  by (simp add: readJob_def db_Read_def)


lemma count_loop_Inl:
  "countFinishedJobs_loop e q ids n = Inl err \<Longrightarrow> err = ErrNotExist \<or> (\<exists>u. err = ErrReading u)"
  by (induction ids arbitrary: n) (auto split: sum.splits dest: readJob_Inl)

lemma countFinishedJobs_Inl:
  "countFinishedJobs e q ids = Inl err \<Longrightarrow> err = ErrNotExist \<or> (\<exists>u. err = ErrReading u)"
  unfolding countFinishedJobs_def by (rule count_loop_Inl)

lemma count_loop_missing:
  "\<forall>i\<in>set ids. \<not> Read_fails e (Canonical i) \<Longrightarrow> d \<in> set ids
   \<Longrightarrow> map_of (db q) (Canonical d) = None
   \<Longrightarrow> countFinishedJobs_loop e q ids n = Inl ErrNotExist"
proof (induction ids arbitrary: n)
  case Nil
  then show ?case by simp
next
  case (Cons i ids)
  show ?case
  proof (cases "readJob e q i")
    case (Inl err)
    with Cons.prems(1) have "err = ErrNotExist"
      by (auto simp: readJob_def db_Read_def split: option.splits)
    with Inl show ?thesis by simp
  next
    case (Inr j)
    with Cons.prems have "d \<noteq> i"
      by (auto simp: readJob_Inr_iff)
    with Cons.prems have d: "d \<in> set ids" by simp
    have ok: "\<forall>i\<in>set ids. \<not> Read_fails e (Canonical i)"
      using Cons.prems(1) by simp
    have "countFinishedJobs_loop e q ids m = Inl ErrNotExist" for m
      by (rule Cons.IH [OF ok d Cons.prems(3)])
    with Inr show ?thesis by simp
  qed
qed



lemma FinishJob_loop_Fails:
  "FinishJob_loop e ds q = (Fails err, q') \<Longrightarrow> err = ErrNotExist \<or> (\<exists>u. err = ErrReading u)"
proof (induction ds arbitrary: q)
  case Nil
  then show ?case by simp
next
  case (Cons d ds)
  show ?case
  proof (cases "readJob e q d")
    case (Inl x)
    with Cons.prems show ?thesis by (auto dest: readJob_Inl)
  next
    case (Inr dep)
    note rd = this
    show ?thesis
    proof (cases "countFinishedJobs e q (Dependencies dep)")
      case (Inl x)
      with rd Cons.prems show ?thesis by (auto dest: countFinishedJobs_Inl)
    next
      case (Inr n)
      show ?thesis
      proof (cases "n = length (Dependencies dep)")
        case True
        show ?thesis
        proof (cases "publish q (Type dep) (Id' dep)")
          case None
          with rd Inr True Cons.prems show ?thesis by simp
        next
          case (Some q1)
          with rd Inr True Cons.prems have "FinishJob_loop e ds q1 = (Fails err, q')" by simp
          then show ?thesis by (rule Cons.IH)
        qed
      next
        case False
        with rd Inr Cons.prems have "FinishJob_loop e ds q = (Fails err, q')" by simp
        then show ?thesis by (rule Cons.IH)
      qed
    qed
  qed
qed

lemma Enqueue_Fails_unchanged:
  "Enqueue e q t args deps = (Fails err, q') \<Longrightarrow> q' = q"
  unfolding Enqueue_def Let_def
  by (simp split: option.splits sum.splits if_splits)

text \<open>What \<open>FinishJob\<close> does once the record is read and found running.\<close>

lemma FinishJob_running:
  assumes "readJob e q i = Inr j" "\<not> IsZero (StartedAt j)" "IsZero (FinishedAt j)"
  shows "FinishJob e q i r =
     (case r of
        None \<Rightarrow> (Fails ErrMarshalResult, q)
      | Some res \<Rightarrow>
          (case db_Write e (db q) (Canonical i) (j\<lparr>FinishedAt := time_Now e, Result := res\<rparr>) of
             None \<Rightarrow> (Fails (ErrWriting i), q)
           | Some d \<Rightarrow>
               (case FinishJob_loop e (slice_of (dependants q) i) (q\<lparr>db := d\<rparr>) of
                  (Returns u, q2) \<Rightarrow> (Returns (), q2\<lparr>dependants := (dependants q2)(i := None)\<rparr>)
                | (Fails err, q2) \<Rightarrow> (Fails err, q2)
                | (Blocks, q2) \<Rightarrow> (Blocks, q2))))"
  using assms by (simp add: FinishJob_def split: option.splits)

lemma FinishJob_running_not_ErrNotRunning:
  assumes "readJob e q i = Inr j" "\<not> IsZero (StartedAt j)" "IsZero (FinishedAt j)"
  shows "fst (FinishJob e q i r) \<noteq> Fails ErrNotRunning"
proof (cases r)
  case None
  then show ?thesis by (simp add: FinishJob_running [OF assms])
next
  case (Some res)
  show ?thesis
  proof (cases "db_Write e (db q) (Canonical i) (j\<lparr>FinishedAt := time_Now e, Result := res\<rparr>)")
    case None
    with Some show ?thesis by (simp add: FinishJob_running [OF assms])
  next
    case (Some d)
    note w = this
    obtain o' q2 where l: "FinishJob_loop e (slice_of (dependants q) i) (q\<lparr>db := d\<rparr>) = (o', q2)"
      by (cases "FinishJob_loop e (slice_of (dependants q) i) (q\<lparr>db := d\<rparr>)")
    show ?thesis
    proof (cases o')
      case (Returns u)
      with \<open>r = Some res\<close> w l show ?thesis by (simp add: FinishJob_running [OF assms])
    next
      case (Fails err)
      with l have "err = ErrNotExist \<or> (\<exists>u. err = ErrReading u)"
        by (auto dest: FinishJob_loop_Fails)
      with Fails \<open>r = Some res\<close> w l show ?thesis
        by (auto simp: FinishJob_running [OF assms])
    next
      case Blocks
      with \<open>r = Some res\<close> w l show ?thesis by (simp add: FinishJob_running [OF assms])
    qed
  qed
qed

lemma FinishJob_ErrNotRunning_iff:
  "fst (FinishJob e q i r) = Fails ErrNotRunning
   \<longleftrightarrow> (\<exists>j. readJob e q i = Inr j \<and> (IsZero (StartedAt j) \<or> \<not> IsZero (FinishedAt j)))"
proof (cases "readJob e q i")
  case (Inl err)
  then have "err \<noteq> ErrNotRunning" by (auto dest: readJob_Inl)
  with Inl show ?thesis by (simp add: FinishJob_def)
next
  case (Inr j)
  show ?thesis
  proof (cases "IsZero (StartedAt j) \<or> \<not> IsZero (FinishedAt j)")
    case True
    with Inr show ?thesis by (auto simp: FinishJob_def)
  next
    case False
    with Inr FinishJob_running_not_ErrNotRunning [of e q i j r] show ?thesis by simp
  qed
qed

lemma FinishJob_ErrNotRunning_unchanged:
  assumes "fst (FinishJob e q i r) = Fails ErrNotRunning"
  shows "snd (FinishJob e q i r) = q"
proof -
  from assms obtain j where j: "readJob e q i = Inr j"
      "IsZero (StartedAt j) \<or> \<not> IsZero (FinishedAt j)"
    unfolding FinishJob_ErrNotRunning_iff by blast
  have "FinishJob e q i r = (Fails ErrNotRunning, q)"
    unfolding FinishJob_def using j by simp
  then show ?thesis by simp
qed


text \<open>
  C6. An Enqueue that names a dependency id with no record in the store fails with
  \<open>ErrNotExist\<close> (the sentinel error that the spec calls UnknownDependency) and leaves
  the queue exactly as it was, the store included: no record is created for the new
  job. This is so whenever \<^verbatim>\<open>json.Marshal\<close> took the arguments and no read of a
  dependency fails in the file system. And when Enqueue fails because the write of the
  new record failed (\<open>ErrCannotWrite\<close>), the queue is as it was: neither the pending
  channels nor the dependant index have changed.
\<close>

theorem C6_Enqueue_unknown_dependency:
  "((\<forall>i\<in>set deps. \<not> Read_fails e (Canonical i)) \<and> d \<in> set deps
      \<and> map_of (db q) (Canonical d) = None
     \<longrightarrow> Enqueue e q t (Some a) deps = (Fails ErrNotExist, q))
   \<and> (Enqueue e' q' t' args' deps' = (Fails ErrCannotWrite, q'') \<longrightarrow> q'' = q')"
proof (intro conjI impI)
  assume h: "(\<forall>i\<in>set deps. \<not> Read_fails e (Canonical i)) \<and> d \<in> set deps
      \<and> map_of (db q) (Canonical d) = None"
  let ?l = "uniqueUUIDList (range_seed e) deps"
  have "countFinishedJobs e q ?l = Inl ErrNotExist"
    unfolding countFinishedJobs_def
    using h by (intro count_loop_missing [where d = d]) (simp_all add: set_uniqueUUIDList)
  then show "Enqueue e q t (Some a) deps = (Fails ErrNotExist, q)"
    by (simp add: Enqueue_def Let_def)
next
  assume "Enqueue e' q' t' args' deps' = (Fails ErrCannotWrite, q'')"
  then show "q'' = q'" by (rule Enqueue_Fails_unchanged)
qed

text \<open>
  The theorem at work: on the queue of jobs 1 and 256, the dependency 0 has no record;
  and with every write failing, an Enqueue that depends on job 1 fails at its write.
\<close>

theorem C6_Enqueue_unknown_dependency_witness:
  "\<not> Read_fails (calm 3 6) (Canonical 0) \<and> (0::uuid) \<in> set [0]
   \<and> map_of (db two_jobs) (Canonical 0) = None
   \<and> Enqueue (calm 3 6) two_jobs ''ship'' (Some ''{}'') [0] = (Fails ErrNotExist, two_jobs)
   \<and> Enqueue (disk_full (calm 3 6)) two_jobs ''ship'' (Some ''{}'') [1]
        = (Fails ErrCannotWrite, two_jobs)"
proof -
  have h: "(\<forall>i\<in>set [0]. \<not> Read_fails (calm 3 6) (Canonical i)) \<and> (0::uuid) \<in> set [0]
      \<and> map_of (db two_jobs) (Canonical 0) = None"
    by (simp add: input_defs)
  have w: "Enqueue (disk_full (calm 3 6)) two_jobs ''ship'' (Some ''{}'') [1]
        = (Fails ErrCannotWrite, two_jobs)"
    by (simp add: queue_defs input_defs uniqueUUIDList_single)
  from C6_Enqueue_unknown_dependency
    [where deps = "[0]" and e = "calm 3 6" and d = 0 and q = two_jobs and t = "''ship''"
       and a = "''{}''" and e' = "disk_full (calm 3 6)" and q' = two_jobs and t' = "''ship''"
       and args' = "Some ''{}''" and deps' = "[1]" and q'' = two_jobs] h w
  show ?thesis by simp
qed

text \<open>
  C7. \<open>FinishJob\<close> on an id with no record fails with \<open>ErrNotExist\<close> (UnknownJob) and
  changes nothing. On an id whose record \<open>j\<close> can be read, it fails with
  \<open>ErrNotRunning\<close> exactly when \<open>StartedAt j\<close> is unset or \<open>FinishedAt j\<close> is set.
  Whenever it fails with \<open>ErrNotRunning\<close>, the queue is as it was: the stored records
  and both indices.
\<close>

theorem C7_FinishJob_rejections:
  "(\<not> Read_fails e (Canonical i) \<and> map_of (db q) (Canonical i) = None
      \<longrightarrow> FinishJob e q i r = (Fails ErrNotExist, q))
   \<and> (\<not> Read_fails e (Canonical i) \<and> map_of (db q) (Canonical i) = Some j
      \<longrightarrow> (fst (FinishJob e q i r) = Fails ErrNotRunning
            \<longleftrightarrow> IsZero (StartedAt j) \<or> \<not> IsZero (FinishedAt j)))
   \<and> (fst (FinishJob e q i r) = Fails ErrNotRunning \<longrightarrow> snd (FinishJob e q i r) = q)"
proof (intro conjI impI)
  assume "\<not> Read_fails e (Canonical i) \<and> map_of (db q) (Canonical i) = None"
  then have "readJob e q i = Inl ErrNotExist" by (simp add: readJob_missing)
  then show "FinishJob e q i r = (Fails ErrNotExist, q)" by (simp add: FinishJob_def)
next
  assume "\<not> Read_fails e (Canonical i) \<and> map_of (db q) (Canonical i) = Some j"
  then have rd: "readJob e q i = Inr j" by (simp add: readJob_Inr_iff)
  then show "fst (FinishJob e q i r) = Fails ErrNotRunning
            \<longleftrightarrow> IsZero (StartedAt j) \<or> \<not> IsZero (FinishedAt j)"
    by (simp add: FinishJob_ErrNotRunning_iff)
next
  assume "fst (FinishJob e q i r) = Fails ErrNotRunning"
  then show "snd (FinishJob e q i r) = q" by (rule FinishJob_ErrNotRunning_unchanged)
qed

text \<open>
  The theorem at work on the queue in which job 1 is pending: id 0 has no record, and
  job 1 was never started.
\<close>

theorem C7_FinishJob_rejections_witness:
  "\<not> Read_fails (calm 0 9) (Canonical 0) \<and> map_of (db one_pending) (Canonical 0) = None
   \<and> FinishJob (calm 0 9) one_pending 0 (Some ''{}'') = (Fails ErrNotExist, one_pending)
   \<and> \<not> Read_fails (calm 0 9) (Canonical 1)
   \<and> map_of (db one_pending) (Canonical 1) = Some (queued_job 1 ''build'' [])
   \<and> IsZero (StartedAt (queued_job 1 ''build'' []))
   \<and> fst (FinishJob (calm 0 9) one_pending 1 (Some ''{}'')) = Fails ErrNotRunning
   \<and> snd (FinishJob (calm 0 9) one_pending 1 (Some ''{}'')) = one_pending"
proof -
  have a: "\<not> Read_fails (calm 0 9) (Canonical 0) \<and> map_of (db one_pending) (Canonical 0) = None"
    by (simp add: input_defs)
  have b: "\<not> Read_fails (calm 0 9) (Canonical 1)
      \<and> map_of (db one_pending) (Canonical 1) = Some (queued_job 1 ''build'' [])"
    by (simp add: input_defs)
  have c: "IsZero (StartedAt (queued_job 1 ''build'' []))"
    by (simp add: input_defs IsZero_def)
  from C7_FinishJob_rejections
    [where e = "calm 0 9" and q = one_pending and i = 0 and r = "Some ''{}''"] a
  have 1: "FinishJob (calm 0 9) one_pending 0 (Some ''{}'') = (Fails ErrNotExist, one_pending)"
    by blast
  from C7_FinishJob_rejections
    [where e = "calm 0 9" and q = one_pending and i = 1 and r = "Some ''{}''"
       and j = "queued_job 1 ''build'' []"] b c
  have 2: "fst (FinishJob (calm 0 9) one_pending 1 (Some ''{}'')) = Fails ErrNotRunning"
    and 3: "snd (FinishJob (calm 0 9) one_pending 1 (Some ''{}'')) = one_pending"
    by blast+
  from a b c 1 2 3 show ?thesis by blast
qed

lemma pendingChannel_frame:
  "db (pendingChannel q t) = db q \<and> dependants (pendingChannel q t) = dependants q"
  by (simp add: pendingChannel_def split: option.splits)

lemma pendingChannels_frame:
  "db (pendingChannels q ts) = db q \<and> dependants (pendingChannels q ts) = dependants q"
  by (induction ts arbitrary: q) (simp_all add: pendingChannel_frame)

lemma ready_cases_range:
  assumes "n \<in> set (ready_cases c bufs)" "n \<noteq> 0"
  shows "n - 1 < length bufs \<and> bufs ! (n - 1) \<noteq> []"
  using assms by (auto simp: ready_cases_def split: if_splits)

lemma selectUUIDChannel_chosen:
  assumes "ready_cases c (map (slice_of (pending q)) chans) \<noteq> []"
    and "ready_cases c (map (slice_of (pending q)) chans)
           ! (n mod length (ready_cases c (map (slice_of (pending q)) chans))) \<noteq> 0"
  shows "slice_of (pending q)
           (chans ! (ready_cases c (map (slice_of (pending q)) chans)
                       ! (n mod length (ready_cases c (map (slice_of (pending q)) chans))) - 1))
         \<noteq> []"
proof -
  let ?ready = "ready_cases c (map (slice_of (pending q)) chans)"
  let ?chosen = "?ready ! (n mod length ?ready)"
  from assms(1) have "?chosen \<in> set ?ready" by simp
  then have r: "?chosen - 1 < length (map (slice_of (pending q)) chans)
      \<and> map (slice_of (pending q)) chans ! (?chosen - 1) \<noteq> []"
    using assms(2) by (rule ready_cases_range)
  then have lt: "?chosen - 1 < length chans" by simp
  from r have ne: "map (slice_of (pending q)) chans ! (?chosen - 1) \<noteq> []" by blast
  from lt have "map (slice_of (pending q)) chans ! (?chosen - 1)
      = slice_of (pending q) (chans ! (?chosen - 1))"
    by (rule nth_map)
  with ne show ?thesis by simp
qed

lemma selectUUIDChannel_Fails:
  assumes "selectUUIDChannel e c q chans = (Fails err, q')"
  shows "err = ErrCanceled \<and> q' = q"
proof -
  let ?ready = "ready_cases c (map (slice_of (pending q)) chans)"
  let ?chosen = "?ready ! (select_pick e mod length ?ready)"
  show ?thesis
  proof (cases "?ready = []")
    case True
    with assms show ?thesis
      by (simp add: selectUUIDChannel_def split: if_splits)
  next
    case False
    note ne = this
    show ?thesis
    proof (cases "?chosen = 0")
      case True
      with assms ne show ?thesis by (simp add: selectUUIDChannel_def Let_def)
    next
      case False
      from selectUUIDChannel_chosen [OF ne False]
      obtain v rest where "slice_of (pending q) (chans ! (?chosen - 1)) = v # rest"
        by (cases "slice_of (pending q) (chans ! (?chosen - 1))") auto
      with assms ne False show ?thesis by (simp add: selectUUIDChannel_def Let_def)
    qed
  qed
qed


lemma selectUUIDChannel_Returns:
  assumes "selectUUIDChannel e c q chans = (Returns v, q')"
  shows "\<exists>t\<in>set chans. \<exists>rest. pending q t = Some (v # rest)
           \<and> q' = q\<lparr>pending := (pending q)(t \<mapsto> rest)\<rparr>"
proof -
  let ?ready = "ready_cases c (map (slice_of (pending q)) chans)"
  let ?chosen = "?ready ! (select_pick e mod length ?ready)"
  let ?t = "chans ! (?chosen - 1)"
  from assms have ne: "?ready \<noteq> []"
    by (auto simp: selectUUIDChannel_def Let_def split: if_splits)
  with assms have nz: "?chosen \<noteq> 0"
    by (auto simp: selectUUIDChannel_def Let_def split: if_splits)
  from ne have "?chosen \<in> set ?ready" by simp
  with nz have lt: "?chosen - 1 < length chans"
    using ready_cases_range [of ?chosen c "map (slice_of (pending q)) chans"] by simp
  then have t: "?t \<in> set chans" by simp
  from assms ne nz obtain rest where
    "slice_of (pending q) ?t = v # rest" "q' = q\<lparr>pending := (pending q)(?t \<mapsto> rest)\<rparr>"
    by (auto simp: selectUUIDChannel_def Let_def split: if_splits list.splits)
  moreover from this have "pending q ?t = Some (v # rest)"
    by (auto simp: slice_of_def split: option.splits)
  ultimately show ?thesis using t by blast
qed

lemma Dequeue_ErrWriting:
  assumes "Dequeue e q c jts acc = (Fails (ErrWriting v), q')"
  shows "db q' = db q \<and> dependants q' = dependants q
     \<and> (\<exists>t\<in>set jts. \<exists>rest. pending (pendingChannels q jts) t = Some (v # rest)
           \<and> pending q' = (pending (pendingChannels q jts))(t \<mapsto> rest))"
proof -
  let ?q0 = "pendingChannels q jts"
  from assms have nc: "\<not> ctx_Err c" by (auto simp: Dequeue_def)
  obtain o1 q1 where s: "selectUUIDChannel e c ?q0 jts = (o1, q1)"
    by (cases "selectUUIDChannel e c ?q0 jts")
  show ?thesis
  proof (cases o1)
    case (Fails err)
    with s have "err = ErrCanceled" by (auto dest: selectUUIDChannel_Fails)
    with assms nc s Fails show ?thesis by (simp add: Dequeue_def)
  next
    case Blocks
    with assms nc s show ?thesis by (simp add: Dequeue_def)
  next
    case (Returns u)
    note r = this
    from s r obtain t rest where t: "t \<in> set jts" "pending ?q0 t = Some (u # rest)"
        "q1 = ?q0\<lparr>pending := (pending ?q0)(t \<mapsto> rest)\<rparr>"
      using selectUUIDChannel_Returns [of e c ?q0 jts u q1] by blast
    show ?thesis
    proof (cases "readJob e q1 u")
      case (Inl err)
      then have "err = ErrNotExist \<or> err = ErrReading u" by (rule readJob_Inl)
      with assms nc s r Inl show ?thesis by (auto simp: Dequeue_def)
    next
      case (Inr j)
      with assms nc s r have "v = u \<and> q' = q1"
        by (auto simp: Dequeue_def Let_def split: if_splits option.splits)
      with t show ?thesis
        using pendingChannels_frame [of q jts] by auto
    qed
  qed
qed

lemma FinishJob_ErrWriting_unchanged:
  assumes "FinishJob e q i r = (Fails (ErrWriting u), q')"
  shows "q' = q"
proof (cases "readJob e q i")
  case (Inl err)
  with assms show ?thesis by (simp add: FinishJob_def)
next
  case (Inr j)
  note rd = this
  show ?thesis
  proof (cases "IsZero (StartedAt j) \<or> \<not> IsZero (FinishedAt j)")
    case True
    with rd have "FinishJob e q i r = (Fails ErrNotRunning, q)"
      unfolding FinishJob_def by simp
    with assms show ?thesis by simp
  next
    case False
    then have run: "\<not> IsZero (StartedAt j)" "IsZero (FinishedAt j)" by simp_all
    note eq = FinishJob_running [OF rd run, of r]
    show ?thesis
    proof (cases r)
      case None
      with assms eq show ?thesis by simp
    next
      case (Some res)
      note res = this
      show ?thesis
      proof (cases "db_Write e (db q) (Canonical i) (j\<lparr>FinishedAt := time_Now e, Result := res\<rparr>)")
        case None
        with assms eq res show ?thesis by simp
      next
        case (Some d)
        obtain o1 q1 where l: "FinishJob_loop e (slice_of (dependants q) i) (q\<lparr>db := d\<rparr>) = (o1, q1)"
          by (cases "FinishJob_loop e (slice_of (dependants q) i) (q\<lparr>db := d\<rparr>)")
        show ?thesis
        proof (cases o1)
          case (Returns x)
          with assms eq res Some l show ?thesis by simp
        next
          case (Fails err)
          with l have "err = ErrNotExist \<or> (\<exists>w. err = ErrReading w)"
            using FinishJob_loop_Fails [of e "slice_of (dependants q) i" "q\<lparr>db := d\<rparr>" err q1]
            by simp
          with assms eq res Some l Fails show ?thesis by auto
        next
          case Blocks
          with assms eq res Some l show ?thesis by simp
        qed
      qed
    qed
  qed
qed

text \<open>
  C5. The claim: when a mutating operation fails with a storage failure, the pending
  channels and the dependant index are exactly as before the call, also for Dequeue when
  the write of the stamped record fails.
  Dequeue receives from the channel before it writes. On the queue in which job 1 is
  pending, with every write failing, Dequeue fails with \<open>ErrWriting 1\<close> and the channel
  of \<open>build\<close>, which held \<open>[1]\<close>, is empty.
\<close>

theorem C5_Dequeue_write_failure_counterexample:
  "Dequeue (disk_full (calm 0 7)) one_pending Background [''build''] (\<lambda>a. True)
     = (Fails (ErrWriting 1), one_pending\<lparr>pending := [''build'' \<mapsto> []]\<rparr>)
   \<and> pending one_pending ''build'' = Some [1]
   \<and> pending (snd (Dequeue (disk_full (calm 0 7)) one_pending Background [''build'']
                      (\<lambda>a. True))) ''build'' = Some []"
  by (simp add: queue_defs input_defs)

text \<open>
  C5, as amended. When Enqueue fails, for whatever reason, the queue is exactly as it was
  before the call; so it is when \<open>FinishJob\<close> fails at its write. When Dequeue fails at
  its write, the stored records and the dependant index are as before the call, and the
  pending channels are as \<open>pendingChannels\<close> made them for the accepted types, less the
  id received, which has left the front of its channel.
\<close>

theorem C5_failed_write_and_indices:
  "(Enqueue e q t args deps = (Fails err, q1) \<longrightarrow> q1 = q)
   \<and> (FinishJob e' q' i r = (Fails (ErrWriting u), q2) \<longrightarrow> q2 = q')
   \<and> (Dequeue e'' q'' c jts acc = (Fails (ErrWriting v), q3)
        \<longrightarrow> db q3 = db q'' \<and> dependants q3 = dependants q''
          \<and> (\<exists>t\<in>set jts. \<exists>rest. pending (pendingChannels q'' jts) t = Some (v # rest)
                \<and> pending q3 = (pending (pendingChannels q'' jts))(t \<mapsto> rest)))"
  using Enqueue_Fails_unchanged [of e q t args deps err q1]
    FinishJob_ErrWriting_unchanged [of e' q' i r u q2]
    Dequeue_ErrWriting [of e'' q'' c jts acc v q3]
  by blast

text \<open>
  The three failures, each on a concrete queue with every write failing.
\<close>

theorem C5_failed_write_and_indices_witness:
  "Enqueue (disk_full (calm 3 6)) two_jobs ''ship'' (Some ''{}'') [1]
      = (Fails ErrCannotWrite, two_jobs)
   \<and> FinishJob (disk_full (calm 0 9)) one_running 1 (Some ''{}'')
      = (Fails (ErrWriting 1), one_running)
   \<and> Dequeue (disk_full (calm 0 7)) one_pending Background [''build''] (\<lambda>a. True)
      = (Fails (ErrWriting 1), one_pending\<lparr>pending := [''build'' \<mapsto> []]\<rparr>)
   \<and> db (one_pending\<lparr>pending := [''build'' \<mapsto> []]\<rparr>) = db one_pending
   \<and> dependants (one_pending\<lparr>pending := [''build'' \<mapsto> []]\<rparr>) = dependants one_pending
   \<and> (\<exists>t\<in>set [''build'']. \<exists>rest.
          pending (pendingChannels one_pending [''build'']) t = Some (1 # rest)
          \<and> pending (one_pending\<lparr>pending := [''build'' \<mapsto> []]\<rparr>)
              = (pending (pendingChannels one_pending [''build'']))(t \<mapsto> rest))"
proof -
  have a: "Enqueue (disk_full (calm 3 6)) two_jobs ''ship'' (Some ''{}'') [1]
      = (Fails ErrCannotWrite, two_jobs)"
    by (simp add: queue_defs input_defs uniqueUUIDList_single)
  have b: "FinishJob (disk_full (calm 0 9)) one_running 1 (Some ''{}'')
      = (Fails (ErrWriting 1), one_running)"
    by (simp add: queue_defs input_defs)
  have c: "Dequeue (disk_full (calm 0 7)) one_pending Background [''build''] (\<lambda>a. True)
      = (Fails (ErrWriting 1), one_pending\<lparr>pending := [''build'' \<mapsto> []]\<rparr>)"
    by (simp add: queue_defs input_defs)
  from C5_failed_write_and_indices
    [where e = "disk_full (calm 3 6)" and q = two_jobs and ?q1.0 = two_jobs
       and e' = "disk_full (calm 0 9)" and q' = one_running and ?q2.0 = one_running
       and e'' = "disk_full (calm 0 7)" and q'' = one_pending and c = Background
       and jts = "[''build'']" and acc = "\<lambda>a. True" and v = 1
       and ?q3.0 = "one_pending\<lparr>pending := [''build'' \<mapsto> []]\<rparr>"] c
  have "db (one_pending\<lparr>pending := [''build'' \<mapsto> []]\<rparr>) = db one_pending
   \<and> dependants (one_pending\<lparr>pending := [''build'' \<mapsto> []]\<rparr>) = dependants one_pending
   \<and> (\<exists>t\<in>set [''build'']. \<exists>rest.
          pending (pendingChannels one_pending [''build'']) t = Some (1 # rest)
          \<and> pending (one_pending\<lparr>pending := [''build'' \<mapsto> []]\<rparr>)
              = (pending (pendingChannels one_pending [''build'']))(t \<mapsto> rest))"
    by blast
  with a b c show ?thesis by blast
qed

section \<open>Duplicate dependencies\<close>

text \<open>
  C9. On the queue over an empty directory: Enqueue A, then Enqueue B with the
  dependencies \<open>[A, A, A]\<close>. The record stored for B lists A once (its dependency list
  has length 1), and B is in no pending channel. A is then dequeued, and the one
  \<open>FinishJob\<close> of A leaves B in the pending channel of B's type. This holds for all
  ids A \<noteq> B, all job types (the same or not), all arguments, map orders and clock
  readings, provided the stamps of Dequeue and \<open>FinishJob\<close> are not the zero instant
  and the reads and writes of the two records do not fail.
\<close>

theorem C9_duplicate_dependencies_coalesce:
  assumes ids: "uuid_New eA = a" "uuid_New eB = b" "a \<noteq> b"
    and ioA: "\<not> Write_fails eA (Canonical a)"
    and ioB: "\<not> Read_fails eB (Canonical a)" "\<not> Write_fails eB (Canonical b)"
    and ioD: "\<not> Read_fails eD (Canonical a)" "\<not> Write_fails eD (Canonical a)"
    and ioF: "\<not> Read_fails eF (Canonical a)" "\<not> Read_fails eF (Canonical b)"
             "\<not> Write_fails eF (Canonical a)"
    and clock: "time_Now eD \<noteq> 0" "time_Now eF \<noteq> 0"
    and acc: "acc xa"
  shows "\<exists>q1 q2 q3 q4 jb.
      Enqueue eA fresh tA (Some xa) [] = (Returns a, q1)
    \<and> a \<in> set (slice_of (pending q1) tA)
    \<and> Enqueue eB q1 tB (Some xb) [a, a, a] = (Returns b, q2)
    \<and> map_of (db q2) (Canonical b) = Some jb \<and> Dependencies jb = [a]
    \<and> length (Dependencies jb) = 1
    \<and> b \<notin> set (slice_of (pending q2) tB)
    \<and> Dequeue eD q2 Background [tA] acc = (Returns a, q3)
    \<and> FinishJob eF q3 a (Some res) = (Returns (), q4)
    \<and> slice_of (pending q4) tB = [b]"
proof -
  define jA where "jA = \<lparr>Id' = a, Type = tA, Args = xa, Dependencies = [], Result = [],
      QueuedAt = time_Now eA, StartedAt = 0, FinishedAt = 0\<rparr>"
  define jB where "jB = \<lparr>Id' = b, Type = tB, Args = xb, Dependencies = [a], Result = [],
      QueuedAt = time_Now eB, StartedAt = 0, FinishedAt = 0\<rparr>"
  define q1 where "q1 = \<lparr>db = [(Canonical a, jA)], pending = [tA \<mapsto> [a]],
      dependants = Map.empty\<rparr>"
  define q2 where "q2 = \<lparr>db = [(Canonical a, jA), (Canonical b, jB)],
      pending = [tA \<mapsto> [a]], dependants = [a \<mapsto> [b]]\<rparr>"
  define q3 where "q3 = \<lparr>db = [(Canonical a, jA\<lparr>StartedAt := time_Now eD\<rparr>), (Canonical b, jB)],
      pending = [tA \<mapsto> []], dependants = [a \<mapsto> [b]]\<rparr>"
  define q4 where "q4 = \<lparr>db = [(Canonical a, jA\<lparr>StartedAt := time_Now eD,
          FinishedAt := time_Now eF, Result := res\<rparr>), (Canonical b, jB)],
      pending = [tA \<mapsto> [], tB \<mapsto> [b]], dependants = Map.empty\<rparr>"
  note defs = jA_def jB_def q1_def q2_def q3_def q4_def
  have u: "uniqueUUIDList (range_seed eB) [a, a, a] = [a]"
    by (rule uniqueUUIDList_single) simp
  have 1: "Enqueue eA fresh tA (Some xa) [] = (Returns a, q1)"
    using ids ioA by (simp add: queue_defs fresh_def uniqueUUIDList_Nil defs)
  have 2: "Enqueue eB q1 tB (Some xb) [a, a, a] = (Returns b, q2)"
    using ids ioB by (simp add: queue_defs u defs)
  have 3: "map_of (db q2) (Canonical b) = Some jB" "Dependencies jB = [a]"
      "a \<in> set (slice_of (pending q1) tA)"
    using ids by (simp_all add: defs slice_of_def)
  have 4: "b \<notin> set (slice_of (pending q2) tB)"
    using ids by (simp add: defs slice_of_def)
  have 5: "Dequeue eD q2 Background [tA] acc = (Returns a, q3)"
    using ids ioD acc by (simp add: queue_defs defs)
  have 6: "FinishJob eF q3 a (Some res) = (Returns (), q4)"
    using ids ioF clock by (simp add: queue_defs defs fun_upd_twist)
  have 7: "slice_of (pending q4) tB = [b]"
    by (simp add: defs slice_of_def)
  from 1 2 3 4 5 6 7 show ?thesis by auto
qed

text \<open>The scenario with A = 1 of type \<open>build\<close> and B = 2 of type \<open>ship\<close>.\<close>

theorem C9_duplicate_dependencies_coalesce_witness:
  "uuid_New (calm 1 5) = 1 \<and> uuid_New (calm 2 6) = 2 \<and> (1::uuid) \<noteq> 2
   \<and> \<not> Write_fails (calm 1 5) (Canonical 1)
   \<and> \<not> Read_fails (calm 2 6) (Canonical 1) \<and> \<not> Write_fails (calm 2 6) (Canonical 2)
   \<and> \<not> Read_fails (calm 0 7) (Canonical 1) \<and> \<not> Write_fails (calm 0 7) (Canonical 1)
   \<and> \<not> Read_fails (calm 0 9) (Canonical 1) \<and> \<not> Read_fails (calm 0 9) (Canonical 2)
   \<and> \<not> Write_fails (calm 0 9) (Canonical 1)
   \<and> time_Now (calm 0 7) \<noteq> 0 \<and> time_Now (calm 0 9) \<noteq> 0
   \<and> (\<exists>q1 q2 q3 q4 jb.
      Enqueue (calm 1 5) fresh ''build'' (Some ''{}'') [] = (Returns 1, q1)
    \<and> 1 \<in> set (slice_of (pending q1) ''build'')
    \<and> Enqueue (calm 2 6) q1 ''ship'' (Some ''{}'') [1, 1, 1] = (Returns 2, q2)
    \<and> map_of (db q2) (Canonical 2) = Some jb \<and> Dependencies jb = [1]
    \<and> length (Dependencies jb) = 1
    \<and> 2 \<notin> set (slice_of (pending q2) ''ship'')
    \<and> Dequeue (calm 0 7) q2 Background [''build''] (\<lambda>x. True) = (Returns 1, q3)
    \<and> FinishJob (calm 0 9) q3 1 (Some ''ok'') = (Returns (), q4)
    \<and> slice_of (pending q4) ''ship'' = [2])"
proof -
  have h: "uuid_New (calm 1 5) = 1" "uuid_New (calm 2 6) = 2" "(1::uuid) \<noteq> 2"
    "\<not> Write_fails (calm 1 5) (Canonical 1)"
    "\<not> Read_fails (calm 2 6) (Canonical 1)" "\<not> Write_fails (calm 2 6) (Canonical 2)"
    "\<not> Read_fails (calm 0 7) (Canonical 1)" "\<not> Write_fails (calm 0 7) (Canonical 1)"
    "\<not> Read_fails (calm 0 9) (Canonical 1)" "\<not> Read_fails (calm 0 9) (Canonical 2)"
    "\<not> Write_fails (calm 0 9) (Canonical 1)"
    "time_Now (calm 0 7) \<noteq> 0" "time_Now (calm 0 9) \<noteq> 0"
    by (simp_all add: calm_def)
  have t: "(\<lambda>x::raw. True) ''{}''" by simp
  note C9_duplicate_dependencies_coalesce
    [of "calm 1 5" 1 "calm 2 6" 2 "calm 0 7" "calm 0 9" "\<lambda>x. True" "''{}''"
        "''build''" "''ship''" "''{}''" "''ok''", OF h t]
  with h show ?thesis by simp
qed

section \<open>Sends that wait\<close>
























lemma Dequeue_mu_mu: "mu (snd (Dequeue_mu e s c ts acc)) = mu s"
  by (simp add: Dequeue_mu_def split: prod.splits)






























section \<open>Order within a job type\<close>








































section \<open>Further properties of the code\<close>

text \<open>
  X1. \<open>uniqueUUIDList\<close> keeps every id of its input and keeps it once, whatever the
  order in which the map is visited.
\<close>

theorem X1_uniqueUUIDList_removes_duplicates:
  "set (uniqueUUIDList seed ids) = set ids \<and> distinct (uniqueUUIDList seed ids)"
  by (simp add: set_uniqueUUIDList distinct_uniqueUUIDList)

text \<open>
  X2. A Dequeue whose context is cancelled before the call fails with \<^verbatim>\<open>ctx.Err()\<close> and
  leaves the queue as it was: no channel is created, nothing is received or written.
\<close>

theorem X2_cancelled_Dequeue_changes_nothing:
  "Dequeue e q CanceledBeforeCall jobTypes acc = (Fails ErrCanceled, q)"
  by (simp add: Dequeue_def ctx_Err_def)

text \<open>
  X3. The chain of two jobs: both Enqueues return their ids, the Dequeue for \<open>build\<close>
  returns job 1, the Dequeue for \<open>ship\<close> that is cancelled while waiting fails with
  \<open>ErrCanceled\<close>, \<open>FinishJob\<close> of job 1 succeeds, and the next Dequeue for \<open>ship\<close>
  returns job 2.
\<close>

theorem X3_chained_dependency_release:
  "results chain_calls (unlocked fresh)
     = [Returns 1, Returns 2, Returns 1, Fails ErrCanceled, Returns 1, Returns 2]"
  by (simp add: chain_calls_def mu_defs queue_defs input_defs uniqueUUIDList_Nil
      uniqueUUIDList_single)

end
